theory Spec2Isabelle
  imports Main "HOL-Library.Word" "HOL-Library.Multiset"
begin

section \<open>Data model\<close>

text \<open>
  The lookup functions of \<^verbatim>\<open>lookup.go\<close> sit on top of a resolver handle
  (\<^verbatim>\<open>*Unbound\<close>) and the resource records of the DNS library. Neither is declared in
  \<^verbatim>\<open>lookup.go\<close>; the types below carry exactly the fields the lookup functions read.
\<close>

text \<open>
  Modelled from the spec: the record types and the record class of a query (constants of
  the DNS library). The spec lists the types A, AAAA, PTR, MX, TXT and SRV, and the class
  INET.
\<close>

datatype rrtype = TypeA | TypeAAAA | TypePTR | TypeMX | TypeTXT | TypeSRV

datatype rrclass = ClassINET

text \<open>\<^verbatim>\<open>net.IP\<close> is a byte slice.\<close>

type_synonym IP = "8 word list"

text \<open>An MX record: preference and exchange host.\<close>

record MX =
  Pref :: "16 word"
  Mx :: string

text \<open>An SRV record: \<^verbatim>\<open>Priority\<close>, \<^verbatim>\<open>Weight\<close> and \<^verbatim>\<open>Port\<close> are \<^verbatim>\<open>uint16\<close>.\<close>

record SRV =
  Priority :: "16 word"
  Weight :: "16 word"
  Port :: "16 word"
  Target :: string

text \<open>
  \<^verbatim>\<open>dns.RR\<close> is an interface; the lookups assert the variant they expect
  (\<^verbatim>\<open>rr.(*dns.RR_PTR)\<close> and so on). \<open>RR_CNAME\<close> stands for a record of a variant
  none of the lookups asks for.
\<close>

datatype RR =
    RR_A IP
  | RR_AAAA IP
  | RR_PTR string
  | RR_MX MX
  | RR_TXT "string list"
  | RR_SRV SRV
  | RR_CNAME string

text \<open>\<^verbatim>\<open>Result\<close>: the fields \<^verbatim>\<open>CanonName\<close> and \<^verbatim>\<open>Rr\<close> are the ones read here.\<close>

record Result =
  CanonName :: string
  Rr :: "RR list"

text \<open>A Go \<^verbatim>\<open>error\<close> value; \<^verbatim>\<open>nil\<close> is \<open>None\<close> of \<open>error option\<close>.\<close>

datatype error = Error string

text \<open>
  What ends a call without a return: a run-time panic, or a channel operation that can
  never complete.
\<close>

datatype abort =
    NilDereference
  | TypeAssertionFailed
  | SendOnClosedChannel
  | CloseOfClosedChannel
  | CloseOfNilChannel
  | InvalidArgument
  | BlocksForever

text \<open>
  The resolver handle. \<^verbatim>\<open>u.Resolve(name, rrtype, rrclass)\<close> returns a pointer to a
  \<^verbatim>\<open>Result\<close> (\<open>None\<close> is the nil pointer) and an error.
\<close>

record Unbound =
  Resolve :: "string \<Rightarrow> rrtype \<Rightarrow> rrclass \<Rightarrow> Result option \<times> error option"

type_synonym query = "string \<times> rrtype \<times> rrclass"

text \<open>
  A channel of \<^verbatim>\<open>*Result\<close>. The channels of \<^verbatim>\<open>LookupIP\<close> are made without a
  capacity: they are unbuffered and hold no value. \<open>closed\<close> is the state \<^verbatim>\<open>close\<close>
  sets, and \<open>closes\<close> counts the \<^verbatim>\<open>close\<close> calls that were executed on the channel.
\<close>

record chan =
  closed :: bool
  closes :: nat

text \<open>
  The state a call runs in: the queries issued to the resolver so far, in order, the
  channels that were made (a channel value is its index in \<open>chans\<close>), and the random
  source of the process: the sequence of numbers it delivers and how many of them were
  drawn.
\<close>

record world =
  queries :: "query list"
  chans :: "chan list"
  random :: "nat \<Rightarrow> nat"
  drawn :: nat

text \<open>The context argument of a callback (\<^verbatim>\<open>interface{}\<close>).\<close>

datatype iface = IChan nat | IOther

text \<open>
  What a goroutine other than the caller does to channels: it sends a value or closes a
  channel. A goroutine runs the body of its function and then the deferred calls; a panic
  in the body skips the rest of the body, and the deferred calls still run.
\<close>

datatype instr = Send nat "Result option" | Close nat

record goroutine =
  body :: "instr list"
  deferred :: "instr list"
  panicking :: "abort option"

section \<open>Sequencing, the resolver and channels\<close>

text \<open>Run \<open>m\<close>, and \<open>f\<close> on its value unless \<open>m\<close> aborted.\<close>

definition bind :: "(world \<Rightarrow> (abort + 'a) \<times> world) \<Rightarrow> ('a \<Rightarrow> world \<Rightarrow> (abort + 'b) \<times> world)
    \<Rightarrow> world \<Rightarrow> (abort + 'b) \<times> world" where
  "bind m f w = (case m w of (Inl a, w') \<Rightarrow> (Inl a, w') | (Inr x, w') \<Rightarrow> f x w')"

definition return :: "'a \<Rightarrow> world \<Rightarrow> (abort + 'a) \<times> world" where
  "return x w = (Inr x, w)"

definition abort_with :: "abort \<Rightarrow> world \<Rightarrow> (abort + 'a) \<times> world" where
  "abort_with a w = (Inl a, w)"

text \<open>The call \<^verbatim>\<open>u.Resolve(name, t, c)\<close>: the query is recorded, the answer returned.\<close>

definition call_Resolve :: "Unbound \<Rightarrow> string \<Rightarrow> rrtype \<Rightarrow> rrclass
    \<Rightarrow> world \<Rightarrow> (abort + Result option \<times> error option) \<times> world" where
  "call_Resolve u name t c w =
     (Inr (Resolve u name t c), w\<lparr>queries := queries w @ [(name, t, c)]\<rparr>)"

text \<open>
  Modelled from the spec: a uniform random draw, which the spec names as what a weighted
  selection needs. It takes the next number of the random source, reduced below \<open>n\<close>.
  No function of \<^verbatim>\<open>lookup.go\<close> calls it.
\<close>

definition random_draw :: "nat \<Rightarrow> world \<Rightarrow> (abort + nat) \<times> world" where
  "random_draw n w =
     (if n = 0 then (Inl InvalidArgument, w)
      else (Inr (random w (drawn w) mod n), w\<lparr>drawn := drawn w + 1\<rparr>))"

text \<open>\<^verbatim>\<open>make(chan *Result)\<close>: a new open channel.\<close>

definition make_chan :: "world \<Rightarrow> (abort + nat) \<times> world" where
  "make_chan w =
     (Inr (length (chans w)),
      w\<lparr>chans := chans w @ [\<lparr>closed = False, closes = 0\<rparr>]\<rparr>)"

text \<open>The operation a goroutine is at: the next of its body, or of its deferred calls.\<close>

definition next_op :: "goroutine \<Rightarrow> instr option" where
  "next_op g =
     (case body g of
        i # _ \<Rightarrow> Some i
      | [] \<Rightarrow> (case deferred g of i # _ \<Rightarrow> Some i | [] \<Rightarrow> None))"

text \<open>The goroutine after its operation completed.\<close>

definition done_op :: "goroutine \<Rightarrow> goroutine" where
  "done_op g =
     (case body g of
        _ # rest \<Rightarrow> g\<lparr>body := rest\<rparr>
      | [] \<Rightarrow> g\<lparr>deferred := tl (deferred g)\<rparr>)"

text \<open>
  The goroutine after its operation panicked. The rest of the body is skipped; a panic
  of a deferred call takes the place of the panic that was under way.
\<close>

definition panic_op :: "abort \<Rightarrow> goroutine \<Rightarrow> goroutine" where
  "panic_op a g =
     (case body g of
        _ # _ \<Rightarrow> g\<lparr>body := [], panicking := Some a\<rparr>
      | [] \<Rightarrow> g\<lparr>deferred := tl (deferred g), panicking := Some a\<rparr>)"

text \<open>
  A step a goroutine takes on its own. \<^verbatim>\<open>close(c)\<close> closes an open channel and panics
  on a closed one. \<^verbatim>\<open>c <- v\<close> panics on a closed channel; on an open channel it waits
  for a receiver and is no step of the goroutine alone. A channel value that names no
  channel behaves as the nil channel does: a send on it blocks forever, a close panics.
\<close>

definition goroutine_step :: "goroutine \<Rightarrow> chan list \<Rightarrow> (goroutine \<times> chan list) option" where
  "goroutine_step g cs =
     (case next_op g of
        None \<Rightarrow> None
      | Some (Close c) \<Rightarrow>
          (if c < length cs then
             (if closed (cs ! c) then Some (panic_op CloseOfClosedChannel g, cs)
              else Some (done_op g,
                     cs[c := (cs ! c)\<lparr>closed := True, closes := closes (cs ! c) + 1\<rparr>]))
           else Some (panic_op CloseOfNilChannel g, cs))
      | Some (Send c v) \<Rightarrow>
          (if c < length cs \<and> closed (cs ! c) then Some (panic_op SendOnClosedChannel g, cs)
           else None))"

text \<open>The operations the goroutines still have before them.\<close>

definition work :: "goroutine list \<Rightarrow> nat" where
  "work gs = sum_list (map (\<lambda>g. length (body g) + length (deferred g)) gs)"

text \<open>The step of the first goroutine that can take one on its own.\<close>

fun first_enabled :: "goroutine list \<Rightarrow> chan list \<Rightarrow> (goroutine list \<times> chan list) option" where
  "first_enabled [] cs = None"
| "first_enabled (g # gs) cs =
     (case goroutine_step g cs of
        Some (g', cs') \<Rightarrow> Some (g' # gs, cs')
      | None \<Rightarrow>
          (case first_enabled gs cs of
             Some (gs', cs') \<Rightarrow> Some (g # gs', cs')
           | None \<Rightarrow> None))"

lemma goroutine_step_work:
  "goroutine_step g cs = Some (g', cs') \<Longrightarrow>
   length (body g') + length (deferred g') < length (body g) + length (deferred g)"
  by (auto simp: goroutine_step_def next_op_def done_op_def panic_op_def
      split: list.splits instr.splits if_splits)

lemma first_enabled_work: "first_enabled gs cs = Some (gs', cs') \<Longrightarrow> work gs' < work gs"
proof (induction gs arbitrary: gs' cs')
  case Nil
  then show ?case by simp
next
  case (Cons g gs)
  show ?case
  proof (cases "goroutine_step g cs")
    case (Some p)
    with Cons.prems goroutine_step_work [of g cs "fst p" "snd p"] show ?thesis
      by (auto simp: work_def split: prod.splits)
  next
    case None
    with Cons.prems Cons.IH show ?thesis
      by (auto simp: work_def split: option.splits prod.splits)
  qed
qed

text \<open>
  The goroutines run on their own until none of them can take a step: each has ended or
  waits in a send for a receiver.
\<close>

function settle :: "goroutine list \<Rightarrow> chan list \<Rightarrow> goroutine list \<times> chan list" where
  "settle gs cs =
     (case first_enabled gs cs of
        None \<Rightarrow> (gs, cs)
      | Some (gs', cs') \<Rightarrow> settle gs' cs')"
  by pat_completeness auto
termination
  by (relation "measure (\<lambda>(gs, cs). work gs)") (auto simp: first_enabled_work)

declare settle.simps [simp del]

text \<open>The panic of a goroutine that ended panicking; it ends the program.\<close>

fun crashed :: "goroutine list \<Rightarrow> abort option" where
  "crashed [] = None"
| "crashed (g # gs) =
     (if next_op g = None \<and> panicking g \<noteq> None then panicking g else crashed gs)"

text \<open>
  The hand-over from the first goroutine that waits in a send on \<open>c\<close>: the value it
  sends, and the goroutines with the send completed.
\<close>

fun first_sender :: "nat \<Rightarrow> goroutine list \<Rightarrow> (Result option \<times> goroutine list) option" where
  "first_sender c [] = None"
| "first_sender c (g # gs) =
     (case next_op g of
        Some (Send c' v) \<Rightarrow>
          (if c' = c then Some (v, done_op g # gs)
           else (case first_sender c gs of
                   Some (v', gs') \<Rightarrow> Some (v', g # gs')
                 | None \<Rightarrow> None))
      | _ \<Rightarrow>
          (case first_sender c gs of
             Some (v', gs') \<Rightarrow> Some (v', g # gs')
           | None \<Rightarrow> None))"

text \<open>
  \<^verbatim>\<open><-c\<close> in the caller, with the goroutines \<open>gs\<close> running beside it. The caller waits
  while the goroutines run as far as they can on their own. Then a goroutine that waits
  in a send on \<open>c\<close> hands its value over; or \<open>c\<close> is closed and the receive yields the zero
  value (the nil pointer); or \<open>c\<close> is open with no sender left that could ever reach it,
  and the receive never completes. The result is the value received and the goroutines
  as they are then. This follows one schedule of the goroutines; the step relation
  further down has every schedule, and a receive as defined here is a run of it.
\<close>

definition chan_recv :: "nat \<Rightarrow> goroutine list
    \<Rightarrow> world \<Rightarrow> (abort + Result option \<times> goroutine list) \<times> world" where
  "chan_recv c gs w =
     (case settle gs (chans w) of
        (gs1, cs1) \<Rightarrow>
          (case crashed gs1 of
             Some a \<Rightarrow> (Inl a, w\<lparr>chans := cs1\<rparr>)
           | None \<Rightarrow>
               (if c < length cs1 then
                  (if closed (cs1 ! c) then (Inr (None, gs1), w\<lparr>chans := cs1\<rparr>)
                   else (case first_sender c gs1 of
                           Some (v, gs2) \<Rightarrow> (Inr (v, gs2), w\<lparr>chans := cs1\<rparr>)
                         | None \<Rightarrow> (Inl BlocksForever, w\<lparr>chans := cs1\<rparr>)))
                else (Inl BlocksForever, w\<lparr>chans := cs1\<rparr>))))"

section \<open>Service record lookup\<close>

text \<open>
  The decoding loop of \<^verbatim>\<open>LookupSRV\<close>:
  \<^verbatim>\<open>for _, rr := range r.Rr { srv = append(srv, rr.(*dns.RR_SRV)) }\<close>.
  The type assertion panics on a record of another variant.
\<close>

fun LookupSRV_decode :: "RR list \<Rightarrow> SRV list \<Rightarrow> abort + SRV list" where
  "LookupSRV_decode [] srv = Inr srv"
| "LookupSRV_decode (rr # rrs) srv =
     (case rr of
        RR_SRV s \<Rightarrow> LookupSRV_decode rrs (srv @ [s])
      | _ \<Rightarrow> Inl TypeAssertionFailed)"

text \<open>
  The inner loop of the sort, \<^verbatim>\<open>for j := i; j < len(srv); j++\<close>, with the exchange
  \<^verbatim>\<open>srv[j], srv[i] = srv[i], srv[j]\<close> when \<^verbatim>\<open>srv[i].Priority > srv[j].Priority\<close>
  (an unsigned comparison of \<^verbatim>\<open>uint16\<close>).
\<close>

function LookupSRV_inner :: "nat \<Rightarrow> nat \<Rightarrow> SRV list \<Rightarrow> SRV list" where
  "LookupSRV_inner i j srv =
     (if j < length srv then
        LookupSRV_inner i (j + 1)
          (if Priority (srv ! i) > Priority (srv ! j)
           then srv[j := srv ! i, i := srv ! j] else srv)
      else srv)"
  by pat_completeness auto
termination
  by (relation "measure (\<lambda>(i, j, srv). length srv - j)") auto

declare LookupSRV_inner.simps [simp del]

lemma length_LookupSRV_inner: "length (LookupSRV_inner i j srv) = length srv"
proof (induction i j srv rule: LookupSRV_inner.induct)
  case (1 i j srv)
  show ?case
  proof (cases "j < length srv")
    case True
    with 1 show ?thesis
      by (subst LookupSRV_inner.simps) simp
  next
    case False
    then show ?thesis
      by (subst LookupSRV_inner.simps) simp
  qed
qed

text \<open>The outer loop, \<^verbatim>\<open>for i := 0; i < len(srv); i++\<close>.\<close>

function LookupSRV_outer :: "nat \<Rightarrow> SRV list \<Rightarrow> SRV list" where
  "LookupSRV_outer i srv =
     (if i < length srv then LookupSRV_outer (i + 1) (LookupSRV_inner i i srv) else srv)"
  by pat_completeness auto
termination
  by (relation "measure (\<lambda>(i, srv). length srv - i)")
     (auto simp: length_LookupSRV_inner)

declare LookupSRV_outer.simps [simp del]

text \<open>
  The name \<^verbatim>\<open>LookupSRV\<close> asks for: \<^verbatim>\<open>name\<close> when service and proto are both
  empty, else \<^verbatim>\<open>"_" + service + "._" + proto + "." + name\<close>.
\<close>

definition LookupSRV_name :: "string \<Rightarrow> string \<Rightarrow> string \<Rightarrow> string" where
  "LookupSRV_name service proto name =
     (if service = [] \<and> proto = [] then name
      else ''_'' @ service @ ''._'' @ proto @ ''.'' @ name)"

text \<open>
  \<^verbatim>\<open>LookupSRV\<close> returns \<^verbatim>\<open>(cname, srv, err)\<close>. On a resolver error it returns
  \<^verbatim>\<open>"", nil, err\<close>; otherwise it reads \<^verbatim>\<open>r.Rr\<close> (a nil \<^verbatim>\<open>r\<close> panics), decodes,
  sorts and returns \<^verbatim>\<open>"", srv, err\<close> with \<^verbatim>\<open>err\<close> nil.
\<close>

definition LookupSRV :: "Unbound \<Rightarrow> string \<Rightarrow> string \<Rightarrow> string
    \<Rightarrow> world \<Rightarrow> (abort + string \<times> SRV list \<times> error option) \<times> world" where
  "LookupSRV u service proto name =
     bind (if service = [] \<and> proto = []
           then call_Resolve u name TypeSRV ClassINET
           else call_Resolve u (''_'' @ service @ ''._'' @ proto @ ''.'' @ name) TypeSRV ClassINET)
       (\<lambda>(r, err).
          if err \<noteq> None then return ([], [], err)
          else (case r of
                  None \<Rightarrow> abort_with NilDereference
                | Some res \<Rightarrow>
                    (case LookupSRV_decode (Rr res) [] of
                       Inl a \<Rightarrow> abort_with a
                     | Inr srv \<Rightarrow> return ([], LookupSRV_outer 0 srv, err))))"

section \<open>Single-query lookups\<close>

text \<open>
  The loop of \<^verbatim>\<open>LookupAddr\<close>:
  \<^verbatim>\<open>for _, rr := range r.Rr { name = append(name, rr.(*dns.RR_PTR).Ptr) }\<close>.
\<close>

fun LookupAddr_decode :: "RR list \<Rightarrow> string list \<Rightarrow> abort + string list" where
  "LookupAddr_decode [] name = Inr name"
| "LookupAddr_decode (rr # rrs) name =
     (case rr of
        RR_PTR ptr \<Rightarrow> LookupAddr_decode rrs (name @ [ptr])
      | _ \<Rightarrow> Inl TypeAssertionFailed)"

text \<open>
  \<^verbatim>\<open>LookupAddr\<close>. \<^verbatim>\<open>dns.ReverseAddr\<close> belongs to the DNS library and is a parameter
  here: it returns the reverse-lookup name and an error. When it fails, \<^verbatim>\<open>nil, err\<close>
  is returned before any query; when the resolver fails, \<^verbatim>\<open>nil, err\<close> as well.
\<close>

definition LookupAddr :: "(string \<Rightarrow> string \<times> error option) \<Rightarrow> Unbound \<Rightarrow> string
    \<Rightarrow> world \<Rightarrow> (abort + string list \<times> error option) \<times> world" where
  "LookupAddr ReverseAddr u addr =
     (case ReverseAddr addr of
        (reverse, Some e) \<Rightarrow> return ([], Some e)
      | (reverse, None) \<Rightarrow>
          bind (call_Resolve u reverse TypePTR ClassINET)
            (\<lambda>(r, err).
               if err \<noteq> None then return ([], err)
               else (case r of
                       None \<Rightarrow> abort_with NilDereference
                     | Some res \<Rightarrow>
                         (case LookupAddr_decode (Rr res) [] of
                            Inl a \<Rightarrow> abort_with a
                          | Inr name \<Rightarrow> return (name, err)))))"

text \<open>
  \<^verbatim>\<open>LookupCNAME\<close> returns \<^verbatim>\<open>r.CanonName, err\<close> without looking at \<^verbatim>\<open>err\<close> first.
\<close>

definition LookupCNAME :: "Unbound \<Rightarrow> string
    \<Rightarrow> world \<Rightarrow> (abort + string \<times> error option) \<times> world" where
  "LookupCNAME u name =
     bind (call_Resolve u name TypeA ClassINET)
       (\<lambda>(r, err).
          case r of
            None \<Rightarrow> abort_with NilDereference
          | Some res \<Rightarrow> return (CanonName res, err))"

text \<open>The loop of \<^verbatim>\<open>LookupMX\<close>: \<^verbatim>\<open>mx = append(mx, rr.(*dns.RR_MX))\<close>.\<close>

fun LookupMX_decode :: "RR list \<Rightarrow> MX list \<Rightarrow> abort + MX list" where
  "LookupMX_decode [] mx = Inr mx"
| "LookupMX_decode (rr # rrs) mx =
     (case rr of
        RR_MX m \<Rightarrow> LookupMX_decode rrs (mx @ [m])
      | _ \<Rightarrow> Inl TypeAssertionFailed)"

definition LookupMX :: "Unbound \<Rightarrow> string
    \<Rightarrow> world \<Rightarrow> (abort + MX list \<times> error option) \<times> world" where
  "LookupMX u name =
     bind (call_Resolve u name TypeMX ClassINET)
       (\<lambda>(r, err).
          if err \<noteq> None then return ([], err)
          else (case r of
                  None \<Rightarrow> abort_with NilDereference
                | Some res \<Rightarrow>
                    (case LookupMX_decode (Rr res) [] of
                       Inl a \<Rightarrow> abort_with a
                     | Inr mx \<Rightarrow> return (mx, err))))"

text \<open>
  The loop of \<^verbatim>\<open>LookupTXT\<close>: \<^verbatim>\<open>txt = append(txt, rr.(*dns.RR_TXT).Txt...)\<close>
  appends all segments of the record.
\<close>

fun LookupTXT_decode :: "RR list \<Rightarrow> string list \<Rightarrow> abort + string list" where
  "LookupTXT_decode [] txt = Inr txt"
| "LookupTXT_decode (rr # rrs) txt =
     (case rr of
        RR_TXT segs \<Rightarrow> LookupTXT_decode rrs (txt @ segs)
      | _ \<Rightarrow> Inl TypeAssertionFailed)"

definition LookupTXT :: "Unbound \<Rightarrow> string
    \<Rightarrow> world \<Rightarrow> (abort + string list \<times> error option) \<times> world" where
  "LookupTXT u name =
     bind (call_Resolve u name TypeTXT ClassINET)
       (\<lambda>(r, err).
          if err \<noteq> None then return ([], err)
          else (case r of
                  None \<Rightarrow> abort_with NilDereference
                | Some res \<Rightarrow>
                    (case LookupTXT_decode (Rr res) [] of
                       Inl a \<Rightarrow> abort_with a
                     | Inr txt \<Rightarrow> return (txt, err))))"

section \<open>Combined host lookup\<close>

text \<open>
  \<^verbatim>\<open>lookupHelper\<close>, the completion callback, as the goroutine that runs it. The
  context is asserted to be a channel: if it is not, the goroutine panics before the
  \<^verbatim>\<open>defer\<close>. \<^verbatim>\<open>defer close(c)\<close> makes the close the deferred call. The body returns
  at once on an error, and is the send \<^verbatim>\<open>c <- r\<close> otherwise.
\<close>

definition lookupHelper :: "iface \<Rightarrow> error option \<Rightarrow> Result option \<Rightarrow> goroutine" where
  "lookupHelper i e r =
     (case i of
        IOther \<Rightarrow> \<lparr>body = [], deferred = [], panicking = Some TypeAssertionFailed\<rparr>
      | IChan c \<Rightarrow>
          \<lparr>body = (if e \<noteq> None then [] else [Send c r]),
           deferred = [Close c],
           panicking = None\<rparr>)"

text \<open>
  Modelled from the spec: \<^verbatim>\<open>ResolveAsync\<close> is a method of the resolver handle and not
  part of \<^verbatim>\<open>lookup.go\<close>. The spec gives it as
  \<^verbatim>\<open>ResolveAsync(name, recordType, recordClass, context, callback)\<close> with the callback
  \<^verbatim>\<open>(context, error, *Result)\<close> invoked exactly once, asynchronously, by an execution
  the resolver owns. Here the query is issued, and the result is the goroutine that runs
  the callback once, with the context and with what \<^verbatim>\<open>Resolve\<close> answers to the query.
\<close>

definition ResolveAsync :: "Unbound \<Rightarrow> string \<Rightarrow> rrtype \<Rightarrow> rrclass \<Rightarrow> iface
    \<Rightarrow> (iface \<Rightarrow> error option \<Rightarrow> Result option \<Rightarrow> goroutine)
    \<Rightarrow> world \<Rightarrow> (abort + goroutine) \<times> world" where
  "ResolveAsync u name t c m f =
     bind (call_Resolve u name t c) (\<lambda>(r, e). return (f m e r))"

text \<open>The loops of \<^verbatim>\<open>LookupIP\<close> over \<^verbatim>\<open>ra.Rr\<close> and \<^verbatim>\<open>raaaa.Rr\<close>.\<close>

fun LookupIP_decode_A :: "RR list \<Rightarrow> IP list \<Rightarrow> abort + IP list" where
  "LookupIP_decode_A [] addrs = Inr addrs"
| "LookupIP_decode_A (rr # rrs) addrs =
     (case rr of
        RR_A a \<Rightarrow> LookupIP_decode_A rrs (addrs @ [a])
      | _ \<Rightarrow> Inl TypeAssertionFailed)"

fun LookupIP_decode_AAAA :: "RR list \<Rightarrow> IP list \<Rightarrow> abort + IP list" where
  "LookupIP_decode_AAAA [] addrs = Inr addrs"
| "LookupIP_decode_AAAA (rr # rrs) addrs =
     (case rr of
        RR_AAAA a \<Rightarrow> LookupIP_decode_AAAA rrs (addrs @ [a])
      | _ \<Rightarrow> Inl TypeAssertionFailed)"

text \<open>
  \<^verbatim>\<open>LookupIP\<close>: two channels, two asynchronous queries with \<^verbatim>\<open>lookupHelper\<close> as the
  callback, the receive from \<^verbatim>\<open>ca\<close> and then from \<^verbatim>\<open>caaaa\<close>, and the two loops.
  \<open>ga\<close> and \<open>gaaaa\<close> are the goroutines of the two callbacks, which run beside the caller
  while it receives.
  \<^verbatim>\<open>ra\<close> and \<^verbatim>\<open>raaaa\<close> are pointers: reading \<^verbatim>\<open>ra.Rr\<close> through a nil pointer
  panics. \<^verbatim>\<open>err\<close> is never assigned, so a return carries a nil error.
\<close>

definition LookupIP :: "Unbound \<Rightarrow> string
    \<Rightarrow> world \<Rightarrow> (abort + IP list \<times> error option) \<times> world" where
  "LookupIP u host =
     bind make_chan (\<lambda>ca.
     bind make_chan (\<lambda>caaaa.
     bind (ResolveAsync u host TypeA ClassINET (IChan ca) lookupHelper) (\<lambda>ga.
     bind (ResolveAsync u host TypeAAAA ClassINET (IChan caaaa) lookupHelper) (\<lambda>gaaaa.
     bind (chan_recv ca [ga, gaaaa]) (\<lambda>(ra, gs).
     bind (chan_recv caaaa gs) (\<lambda>(raaaa, gs').
       case ra of
         None \<Rightarrow> abort_with NilDereference
       | Some resa \<Rightarrow>
           (case LookupIP_decode_A (Rr resa) [] of
              Inl a \<Rightarrow> abort_with a
            | Inr addrs \<Rightarrow>
                (case raaaa of
                   None \<Rightarrow> abort_with NilDereference
                 | Some resaaaa \<Rightarrow>
                     (case LookupIP_decode_AAAA (Rr resaaaa) addrs of
                        Inl a \<Rightarrow> abort_with a
                      | Inr addrs' \<Rightarrow> return (addrs', None))))))))))"

text \<open>
  The loop of \<^verbatim>\<open>LookupHost\<close>: \<^verbatim>\<open>addrs = append(addrs, ip.String())\<close>.
  \<^verbatim>\<open>IP.String\<close> belongs to the standard library and is a parameter.
\<close>

fun LookupHost_loop :: "(IP \<Rightarrow> string) \<Rightarrow> IP list \<Rightarrow> string list \<Rightarrow> string list" where
  "LookupHost_loop String [] addrs = addrs"
| "LookupHost_loop String (ip # ips) addrs = LookupHost_loop String ips (addrs @ [String ip])"

definition LookupHost :: "(IP \<Rightarrow> string) \<Rightarrow> Unbound \<Rightarrow> string
    \<Rightarrow> world \<Rightarrow> (abort + string list \<times> error option) \<times> world" where
  "LookupHost String u host =
     bind (LookupIP u host)
       (\<lambda>(ipaddrs, err).
          if err \<noteq> None then return ([], err)
          else return (LookupHost_loop String ipaddrs [], None))"

section \<open>Resolvers and states of the examples\<close>

text \<open>A resolver that gives the same answer to every query.\<close>

definition answer_all :: "Result option \<times> error option \<Rightarrow> Unbound" where
  "answer_all ans = \<lparr>Resolve = (\<lambda>name t c. ans)\<rparr>"

text \<open>A resolver that answers A queries with \<open>a\<close> and all other queries with \<open>aaaa\<close>.\<close>

definition answer_by_family :: "Result option \<times> error option \<Rightarrow> Result option \<times> error option
    \<Rightarrow> Unbound" where
  "answer_by_family a aaaa = \<lparr>Resolve = (\<lambda>name t c. if t = TypeA then a else aaaa)\<rparr>"

text \<open>A reverse-address conversion with a fixed outcome.\<close>

definition reverse_fixed :: "string \<Rightarrow> error option \<Rightarrow> string \<Rightarrow> string \<times> error option" where
  "reverse_fixed reverse e addr = (reverse, e)"

text \<open>The state before a call: no query issued, no channel made, no number drawn.\<close>

definition world0 :: world where
  "world0 = \<lparr>queries = [], chans = [], random = (\<lambda>n. 0), drawn = 0\<rparr>"

text \<open>The records of one priority, in the order of the list.\<close>

definition priority_band :: "16 word \<Rightarrow> SRV list \<Rightarrow> SRV list" where
  "priority_band p srv = filter (\<lambda>s. Priority s = p) srv"

text \<open>
  Stability as the specification words it: for every priority of the input, the records of
  that priority stand in the output in the order they had in the input.
\<close>

definition keeps_band_order :: "SRV list \<Rightarrow> SRV list \<Rightarrow> bool" where
  "keeps_band_order inp out =
     (\<forall>p \<in> set (map Priority inp). priority_band p out = priority_band p inp)"

text \<open>
  A stand-in for \<^verbatim>\<open>IP.String\<close> that gives three addresses of the examples their
  textual form.
\<close>

definition String_example :: "IP \<Rightarrow> string" where
  "String_example ip =
     (if ip = [192, 0, 2, 1] then ''192.0.2.1''
      else if ip = [192, 0, 2, 2] then ''192.0.2.2''
      else if ip = [32, 1, 13, 184, 0, 0, 0, 0, 0, 0, 0, 0, 0, 0, 0, 1] then ''2001:db8::1''
      else ''?'')"

text \<open>What a receive from the channel of a callback yields: nil after an error.\<close>

definition received :: "Result option \<times> error option \<Rightarrow> Result option" where
  "received ans = (if snd ans \<noteq> None then None else fst ans)"

text \<open>
  The state \<^verbatim>\<open>LookupIP\<close> is in after its second receive: the two queries were issued,
  the A query first; the channel \<^verbatim>\<open>ca\<close> is closed; the channel \<^verbatim>\<open>caaaa\<close> is closed if
  the AAAA query had an error, and otherwise its value was handed over and the close of
  its callback is still to come.
\<close>

definition LookupIP_end :: "Unbound \<Rightarrow> string \<Rightarrow> world \<Rightarrow> world" where
  "LookupIP_end u host w =
     w\<lparr>queries := queries w @ [(host, TypeA, ClassINET), (host, TypeAAAA, ClassINET)],
       chans := chans w @
         [\<lparr>closed = True, closes = 1\<rparr>,
          (if snd (Resolve u host TypeAAAA ClassINET) \<noteq> None
           then \<lparr>closed = True, closes = 1\<rparr> else \<lparr>closed = False, closes = 0\<rparr>)]\<rparr>"

section \<open>The schedules of the combined host lookup\<close>

text \<open>
  A configuration of the caller and the goroutines beside it: the channels the caller has
  still to receive from, in order; the values it has received; the goroutines; and the
  channels.
\<close>

type_synonym config = "nat list \<times> Result option list \<times> goroutine list \<times> chan list"

text \<open>
  One step of the program, whichever of its parts moves. A goroutine takes a step on its
  own; or a goroutine that waits in a send on \<open>c\<close> and the caller that waits in a receive
  from \<open>c\<close> meet, and the value passes over; or the caller receives the zero value from a
  closed channel. A send on an open channel has no step without a receiver, and a receive
  from an open channel none without a sender: that is what unbuffered means.
\<close>

inductive step :: "config \<Rightarrow> config \<Rightarrow> bool" where
  internal:
    "k < length gs \<Longrightarrow> goroutine_step (gs ! k) cs = Some (g', cs') \<Longrightarrow>
     step (rs, got, gs, cs) (rs, got, gs[k := g'], cs')"
| handoff:
    "k < length gs \<Longrightarrow> next_op (gs ! k) = Some (Send c v) \<Longrightarrow>
     c < length cs \<Longrightarrow> \<not> closed (cs ! c) \<Longrightarrow>
     step (c # rs, got, gs, cs) (rs, got @ [v], gs[k := done_op (gs ! k)], cs)"
| recv_closed:
    "c < length cs \<Longrightarrow> closed (cs ! c) \<Longrightarrow>
     step (c # rs, got, gs, cs) (rs, got @ [None], gs, cs)"










section \<open>The sort of \<^verbatim>\<open>LookupSRV\<close>\<close>

text \<open>
  The inner loop for \<open>i\<close> permutes the slice, leaves the first \<open>i\<close> entries alone and
  moves a record of least priority among the entries from \<open>i\<close> on to position \<open>i\<close>.
\<close>

lemma mset_LookupSRV_inner:
  "i < length srv \<Longrightarrow> mset (LookupSRV_inner i j srv) = mset srv"
proof (induction i j srv rule: LookupSRV_inner.induct)
  case (1 i j srv)
  show ?case
  proof (cases "j < length srv")
    case True
    with 1 show ?thesis
      by (subst LookupSRV_inner.simps) (simp add: mset_swap)
  next
    case False
    then show ?thesis
      by (subst LookupSRV_inner.simps) simp
  qed
qed

lemma take_LookupSRV_inner:
  "i \<le> j \<Longrightarrow> take i (LookupSRV_inner i j srv) = take i srv"
proof (induction i j srv rule: LookupSRV_inner.induct)
  case (1 i j srv)
  show ?case
  proof (cases "j < length srv")
    case True
    with 1 show ?thesis
      by (subst LookupSRV_inner.simps) simp
  next
    case False
    then show ?thesis
      by (subst LookupSRV_inner.simps) simp
  qed
qed

lemma least_LookupSRV_inner:
  "i \<le> j \<Longrightarrow> i < length srv \<Longrightarrow>
   (\<forall>k. i \<le> k \<and> k < j \<longrightarrow> Priority (srv ! i) \<le> Priority (srv ! k)) \<Longrightarrow>
   k \<ge> i \<Longrightarrow> k < length srv \<Longrightarrow>
   Priority (LookupSRV_inner i j srv ! i) \<le> Priority (LookupSRV_inner i j srv ! k)"
proof (induction i j srv rule: LookupSRV_inner.induct)
  case (1 i j srv)
  show ?case
  proof (cases "j < length srv")
    case True
    let ?srv' = "if Priority (srv ! i) > Priority (srv ! j) then srv[j := srv ! i, i := srv ! j] else srv"
    have len: "length ?srv' = length srv" by simp
    have inv: "\<forall>k. i \<le> k \<and> k < j + 1 \<longrightarrow> Priority (?srv' ! i) \<le> Priority (?srv' ! k)"
    proof (intro allI impI)
      fix k assume k: "i \<le> k \<and> k < j + 1"
      show "Priority (?srv' ! i) \<le> Priority (?srv' ! k)"
      proof (cases "Priority (srv ! i) > Priority (srv ! j)")
        case False
        then show ?thesis using k "1.prems"(3) by (cases "k = j") auto
      next
        case gt: True
        then have ij: "i \<noteq> j" by auto
        have "Priority (srv ! j) \<le> Priority (srv ! i)" using gt by simp
        moreover have "k \<noteq> i \<Longrightarrow> k \<noteq> j \<Longrightarrow> Priority (srv ! i) \<le> Priority (srv ! k)"
          using k "1.prems"(3) by auto
        ultimately show ?thesis using gt k True "1.prems"(1,2) ij
          by (cases "k = i"; cases "k = j") (auto simp: nth_list_update)
      qed
    qed
    have "Priority (LookupSRV_inner i (j + 1) ?srv' ! i) \<le> Priority (LookupSRV_inner i (j + 1) ?srv' ! k)"
      using "1.IH"[OF True] "1.prems" inv len by simp
    then show ?thesis
      using True by (subst (1 2) LookupSRV_inner.simps) simp
  next
    case False
    with "1.prems" show ?thesis
      by (subst (1 2) LookupSRV_inner.simps) simp
  qed
qed

lemma mset_LookupSRV_outer: "mset (LookupSRV_outer i srv) = mset srv"
proof (induction i srv rule: LookupSRV_outer.induct)
  case (1 i srv)
  show ?case
  proof (cases "i < length srv")
    case True
    with 1 show ?thesis
      by (subst LookupSRV_outer.simps) (simp add: mset_LookupSRV_inner)
  next
    case False
    then show ?thesis
      by (subst LookupSRV_outer.simps) simp
  qed
qed

lemma drop_LookupSRV_inner:
  assumes "i < length srv"
  shows "mset (drop i (LookupSRV_inner i i srv)) = mset (drop i srv)"
proof -
  let ?r = "LookupSRV_inner i i srv"
  have "mset (take i ?r) + mset (drop i ?r) = mset (take i srv) + mset (drop i srv)"
    using mset_LookupSRV_inner[OF assms, of i]
    by (metis append_take_drop_id mset_append)
  then show ?thesis
    by (simp add: take_LookupSRV_inner)
qed

lemma sorted_LookupSRV_outer:
  "i \<le> length srv \<Longrightarrow> sorted (map Priority (take i srv)) \<Longrightarrow>
   (\<forall>x \<in> set (take i srv). \<forall>y \<in> set (drop i srv). Priority x \<le> Priority y) \<Longrightarrow>
   sorted (map Priority (LookupSRV_outer i srv))"
proof (induction i srv rule: LookupSRV_outer.induct)
  case (1 i srv)
  show ?case
  proof (cases "i < length srv")
    case True
    let ?r = "LookupSRV_inner i i srv"
    have len: "length ?r = length srv" by (simp add: length_LookupSRV_inner)
    have tk: "take i ?r = take i srv" by (simp add: take_LookupSRV_inner)
    have dr: "set (drop i ?r) = set (drop i srv)"
      using drop_LookupSRV_inner[OF True] by (metis set_mset_mset)
    have least: "\<And>k. i \<le> k \<Longrightarrow> k < length srv \<Longrightarrow> Priority (?r ! i) \<le> Priority (?r ! k)"
      by (rule least_LookupSRV_inner) (use True in auto)
    have ri: "?r ! i \<in> set (drop i ?r)"
      using True len by (metis Cons_nth_drop_Suc list.set_intros(1))
    have tk1: "take (Suc i) ?r = take i srv @ [?r ! i]"
      using True len tk by (simp add: take_Suc_conv_app_nth)
    have s1: "sorted (map Priority (take (Suc i) ?r))"
      using "1.prems"(2,3) ri dr by (simp add: tk1 sorted_append)
    have s2: "\<forall>x \<in> set (take (Suc i) ?r). \<forall>y \<in> set (drop (Suc i) ?r). Priority x \<le> Priority y"
    proof (intro ballI)
      fix x y assume x: "x \<in> set (take (Suc i) ?r)" and y: "y \<in> set (drop (Suc i) ?r)"
      from y have y': "y \<in> set (drop i ?r)"
        by (metis Suc_eq_plus1 add.commute drop_drop in_set_dropD)
      from y obtain k where k: "k < length ?r - Suc i" "y = ?r ! (Suc i + k)"
        by (auto simp: in_set_conv_nth)
      show "Priority x \<le> Priority y"
      proof (cases "x \<in> set (take i srv)")
        case True
        then show ?thesis using "1.prems"(3) y' dr by auto
      next
        case False
        with x have "x = ?r ! i" by (simp add: tk1)
        then show ?thesis using least[of "Suc i + k"] k len by simp
      qed
    qed
    have "sorted (map Priority (LookupSRV_outer (i + 1) ?r))"
      using "1.IH"[OF True] s1 s2 True len by simp
    then show ?thesis
      using True by (subst LookupSRV_outer.simps) simp
  next
    case False
    with "1.prems" show ?thesis
      by (subst LookupSRV_outer.simps) simp
  qed
qed

lemma sorted_LookupSRV_sort: "sorted (map Priority (LookupSRV_outer 0 srv))"
  by (rule sorted_LookupSRV_outer) simp_all

section \<open>Service record lookup: the claims\<close>

lemma LookupSRV_decode_map: "LookupSRV_decode (map RR_SRV recs) srv = Inr (srv @ recs)"
  by (induction recs arbitrary: srv) simp_all

text \<open>\<^verbatim>\<open>LookupSRV\<close> by the answer of the resolver to its one query.\<close>

lemma LookupSRV_unfold:
  "LookupSRV u service proto name w =
     (case Resolve u (LookupSRV_name service proto name) TypeSRV ClassINET of
        (r, Some e) \<Rightarrow> (Inr ([], [], Some e),
           w\<lparr>queries := queries w @ [(LookupSRV_name service proto name, TypeSRV, ClassINET)]\<rparr>)
      | (None, None) \<Rightarrow> (Inl NilDereference,
           w\<lparr>queries := queries w @ [(LookupSRV_name service proto name, TypeSRV, ClassINET)]\<rparr>)
      | (Some res, None) \<Rightarrow>
          (case LookupSRV_decode (Rr res) [] of
             Inl a \<Rightarrow> (Inl a,
               w\<lparr>queries := queries w @ [(LookupSRV_name service proto name, TypeSRV, ClassINET)]\<rparr>)
           | Inr srv \<Rightarrow> (Inr ([], LookupSRV_outer 0 srv, None),
               w\<lparr>queries := queries w @ [(LookupSRV_name service proto name, TypeSRV, ClassINET)]\<rparr>)))"
  by (simp add: LookupSRV_def LookupSRV_name_def bind_def call_Resolve_def return_def
      abort_with_def split: prod.splits option.splits sum.splits)

text \<open>
  Claim C2, as the specification states it: the list \<^verbatim>\<open>LookupSRV\<close> returns is sorted by
  ascending priority and the sort is stable. The second half fails. The resolver answers
  with the records a (priority 2), b (priority 2), c (priority 1), in this order. For
  \<open>i = 0\<close> the loop exchanges a with c, which carries a behind b: the list returned is
  c, b, a, and the two records of priority 2 have changed places.
\<close>

theorem LookupSRV_sort_unstable:
  "fst (LookupSRV
       (answer_all (Some \<lparr>CanonName = ''real.example.com.'',
          Rr = [RR_SRV \<lparr>Priority = 2, Weight = 10, Port = 389, Target = ''a.example.com.''\<rparr>,
                RR_SRV \<lparr>Priority = 2, Weight = 20, Port = 389, Target = ''b.example.com.''\<rparr>,
                RR_SRV \<lparr>Priority = 1, Weight = 30, Port = 389, Target = ''c.example.com.''\<rparr>]\<rparr>,
          None))
       ''ldap'' ''tcp'' ''example.com'' world0) =
     Inr ([],
       [\<lparr>Priority = 1, Weight = 30, Port = 389, Target = ''c.example.com.''\<rparr>,
        \<lparr>Priority = 2, Weight = 20, Port = 389, Target = ''b.example.com.''\<rparr>,
        \<lparr>Priority = 2, Weight = 10, Port = 389, Target = ''a.example.com.''\<rparr>], None) \<and>
   \<not> keeps_band_order
       [\<lparr>Priority = 2, Weight = 10, Port = 389, Target = ''a.example.com.''\<rparr>,
        \<lparr>Priority = 2, Weight = 20, Port = 389, Target = ''b.example.com.''\<rparr>,
        \<lparr>Priority = 1, Weight = 30, Port = 389, Target = ''c.example.com.''\<rparr>]
       [\<lparr>Priority = 1, Weight = 30, Port = 389, Target = ''c.example.com.''\<rparr>,
        \<lparr>Priority = 2, Weight = 20, Port = 389, Target = ''b.example.com.''\<rparr>,
        \<lparr>Priority = 2, Weight = 10, Port = 389, Target = ''a.example.com.''\<rparr>]"
  by (simp add: LookupSRV_unfold answer_all_def world0_def LookupSRV_outer.simps
      LookupSRV_inner.simps keeps_band_order_def priority_band_def)

text \<open>
  Claim C2, amended: every list \<^verbatim>\<open>LookupSRV\<close> returns is sorted by ascending priority;
  and when the resolver answers without an error and with SRV records only, the call
  returns, with the empty canonical name and a nil error, a list that is sorted by
  ascending priority and holds exactly the records of the answer (each as often as the
  answer has it). Nothing is said about the order of records of equal priority.
\<close>

theorem LookupSRV_sorted_by_priority:
  "(fst (LookupSRV u service proto name w) = Inr (cname, srv, err) \<longrightarrow>
      sorted (map Priority srv)) \<and>
   (Resolve u (LookupSRV_name service proto name) TypeSRV ClassINET = (Some res, None) \<and>
    Rr res = map RR_SRV recs \<longrightarrow>
      (\<exists>srv'. fst (LookupSRV u service proto name w) = Inr ([], srv', None) \<and>
         sorted (map Priority srv') \<and> mset srv' = mset recs))"
proof (intro conjI impI)
  assume "fst (LookupSRV u service proto name w) = Inr (cname, srv, err)"
  then show "sorted (map Priority srv)"
    by (auto simp: LookupSRV_unfold sorted_LookupSRV_sort
        split: prod.splits option.splits sum.splits)
next
  assume "Resolve u (LookupSRV_name service proto name) TypeSRV ClassINET = (Some res, None) \<and>
    Rr res = map RR_SRV recs"
  then have "fst (LookupSRV u service proto name w) = Inr ([], LookupSRV_outer 0 recs, None)"
    by (simp add: LookupSRV_unfold LookupSRV_decode_map)
  then show "\<exists>srv'. fst (LookupSRV u service proto name w) = Inr ([], srv', None) \<and>
         sorted (map Priority srv') \<and> mset srv' = mset recs"
    by (simp add: sorted_LookupSRV_sort mset_LookupSRV_outer)
qed

theorem LookupSRV_sorted_by_priority_witness:
  "Resolve (answer_all (Some \<lparr>CanonName = ''real.example.com.'',
          Rr = [RR_SRV \<lparr>Priority = 2, Weight = 10, Port = 389, Target = ''a.example.com.''\<rparr>,
                RR_SRV \<lparr>Priority = 2, Weight = 20, Port = 389, Target = ''b.example.com.''\<rparr>,
                RR_SRV \<lparr>Priority = 1, Weight = 30, Port = 389, Target = ''c.example.com.''\<rparr>]\<rparr>,
          None))
       (LookupSRV_name ''ldap'' ''tcp'' ''example.com'') TypeSRV ClassINET =
     (Some \<lparr>CanonName = ''real.example.com.'',
          Rr = [RR_SRV \<lparr>Priority = 2, Weight = 10, Port = 389, Target = ''a.example.com.''\<rparr>,
                RR_SRV \<lparr>Priority = 2, Weight = 20, Port = 389, Target = ''b.example.com.''\<rparr>,
                RR_SRV \<lparr>Priority = 1, Weight = 30, Port = 389, Target = ''c.example.com.''\<rparr>]\<rparr>,
      None) \<and>
   fst (LookupSRV
       (answer_all (Some \<lparr>CanonName = ''real.example.com.'',
          Rr = [RR_SRV \<lparr>Priority = 2, Weight = 10, Port = 389, Target = ''a.example.com.''\<rparr>,
                RR_SRV \<lparr>Priority = 2, Weight = 20, Port = 389, Target = ''b.example.com.''\<rparr>,
                RR_SRV \<lparr>Priority = 1, Weight = 30, Port = 389, Target = ''c.example.com.''\<rparr>]\<rparr>,
          None))
       ''ldap'' ''tcp'' ''example.com'' world0) =
     Inr ([],
       [\<lparr>Priority = 1, Weight = 30, Port = 389, Target = ''c.example.com.''\<rparr>,
        \<lparr>Priority = 2, Weight = 20, Port = 389, Target = ''b.example.com.''\<rparr>,
        \<lparr>Priority = 2, Weight = 10, Port = 389, Target = ''a.example.com.''\<rparr>], None) \<and>
   sorted (map Priority
       [\<lparr>Priority = 1, Weight = 30, Port = 389, Target = ''c.example.com.''\<rparr>,
        \<lparr>Priority = 2, Weight = 20, Port = 389, Target = ''b.example.com.''\<rparr>,
        \<lparr>Priority = 2, Weight = 10, Port = 389, Target = ''a.example.com.''\<rparr>]) \<and>
   mset [\<lparr>Priority = 1, Weight = 30, Port = 389, Target = ''c.example.com.''\<rparr>,
        \<lparr>Priority = 2, Weight = 20, Port = 389, Target = ''b.example.com.''\<rparr>,
        \<lparr>Priority = 2, Weight = 10, Port = 389, Target = ''a.example.com.''\<rparr>] =
   mset [\<lparr>Priority = 2, Weight = 10, Port = 389, Target = ''a.example.com.''\<rparr>,
        \<lparr>Priority = 2, Weight = 20, Port = 389, Target = ''b.example.com.''\<rparr>,
        \<lparr>Priority = 1, Weight = 30, Port = 389, Target = ''c.example.com.''\<rparr>]"
  using LookupSRV_sorted_by_priority
    [where u = "answer_all (Some \<lparr>CanonName = ''real.example.com.'',
          Rr = [RR_SRV \<lparr>Priority = 2, Weight = 10, Port = 389, Target = ''a.example.com.''\<rparr>,
                RR_SRV \<lparr>Priority = 2, Weight = 20, Port = 389, Target = ''b.example.com.''\<rparr>,
                RR_SRV \<lparr>Priority = 1, Weight = 30, Port = 389, Target = ''c.example.com.''\<rparr>]\<rparr>,
          None)"
       and service = "''ldap''" and proto = "''tcp''" and name = "''example.com''"
       and w = world0 and cname = "[]" and err = None
       and srv = "[\<lparr>Priority = 1, Weight = 30, Port = 389, Target = ''c.example.com.''\<rparr>,
        \<lparr>Priority = 2, Weight = 20, Port = 389, Target = ''b.example.com.''\<rparr>,
        \<lparr>Priority = 2, Weight = 10, Port = 389, Target = ''a.example.com.''\<rparr>]"
       and res = "\<lparr>CanonName = ''real.example.com.'',
          Rr = [RR_SRV \<lparr>Priority = 2, Weight = 10, Port = 389, Target = ''a.example.com.''\<rparr>,
                RR_SRV \<lparr>Priority = 2, Weight = 20, Port = 389, Target = ''b.example.com.''\<rparr>,
                RR_SRV \<lparr>Priority = 1, Weight = 30, Port = 389, Target = ''c.example.com.''\<rparr>]\<rparr>"
       and recs = "[\<lparr>Priority = 2, Weight = 10, Port = 389, Target = ''a.example.com.''\<rparr>,
        \<lparr>Priority = 2, Weight = 20, Port = 389, Target = ''b.example.com.''\<rparr>,
        \<lparr>Priority = 1, Weight = 30, Port = 389, Target = ''c.example.com.''\<rparr>]"]
  by (simp add: LookupSRV_unfold answer_all_def world0_def LookupSRV_outer.simps
      LookupSRV_inner.simps)

text \<open>
  Claim C3 says that within a priority the records are ordered at random, by weight. The
  code orders them by the sort alone. The resolver answers with two records of priority 5,
  one of weight 0 and one of weight 65535: whichever stands first in the answer stands
  first in the list returned, the record of weight 0 included, and the weights are never
  read.
\<close>

theorem LookupSRV_ignores_weight:
  "fst (LookupSRV
       (answer_all (Some \<lparr>CanonName = [],
          Rr = [RR_SRV \<lparr>Priority = 5, Weight = 0, Port = 5060, Target = ''light.example.com.''\<rparr>,
                RR_SRV \<lparr>Priority = 5, Weight = 65535, Port = 5060, Target = ''heavy.example.com.''\<rparr>]\<rparr>,
          None))
       ''sip'' ''udp'' ''example.com'' world0) =
     Inr ([],
       [\<lparr>Priority = 5, Weight = 0, Port = 5060, Target = ''light.example.com.''\<rparr>,
        \<lparr>Priority = 5, Weight = 65535, Port = 5060, Target = ''heavy.example.com.''\<rparr>], None) \<and>
   fst (LookupSRV
       (answer_all (Some \<lparr>CanonName = [],
          Rr = [RR_SRV \<lparr>Priority = 5, Weight = 65535, Port = 5060, Target = ''heavy.example.com.''\<rparr>,
                RR_SRV \<lparr>Priority = 5, Weight = 0, Port = 5060, Target = ''light.example.com.''\<rparr>]\<rparr>,
          None))
       ''sip'' ''udp'' ''example.com'' world0) =
     Inr ([],
       [\<lparr>Priority = 5, Weight = 65535, Port = 5060, Target = ''heavy.example.com.''\<rparr>,
        \<lparr>Priority = 5, Weight = 0, Port = 5060, Target = ''light.example.com.''\<rparr>], None)"
  by (simp add: LookupSRV_unfold answer_all_def world0_def LookupSRV_outer.simps
      LookupSRV_inner.simps)

text \<open>
  Claim C6: \<^verbatim>\<open>LookupSRV\<close> issues one query, of type SRV and class INET. Its name is
  \<^verbatim>\<open>name\<close> itself when service and proto are both empty, and
  \<^verbatim>\<open>"_" + service + "._" + proto + "." + name\<close> otherwise; nothing else is done to the
  name.
\<close>

theorem LookupSRV_query_name:
  "queries (snd (LookupSRV u service proto name w)) =
     queries w @
       [(if service = [] \<and> proto = [] then name
         else ''_'' @ service @ ''._'' @ proto @ ''.'' @ name, TypeSRV, ClassINET)]"
  by (simp add: LookupSRV_def bind_def call_Resolve_def return_def abort_with_def
      split: prod.splits option.splits sum.splits)

theorem LookupSRV_query_name_witness:
  "queries (snd (LookupSRV (answer_all (None, Some (Error ''SERVFAIL'')))
       ''ldap'' ''tcp'' ''example.com'' world0)) =
     [(''_ldap._tcp.example.com'', TypeSRV, ClassINET)] \<and>
   queries (snd (LookupSRV (answer_all (None, Some (Error ''SERVFAIL'')))
       [] [] ''Example.COM'' world0)) =
     [(''Example.COM'', TypeSRV, ClassINET)]"
  using LookupSRV_query_name
      [of "answer_all (None, Some (Error ''SERVFAIL''))" "''ldap''" "''tcp''" "''example.com''" world0]
    LookupSRV_query_name
      [of "answer_all (None, Some (Error ''SERVFAIL''))" "[]" "[]" "''Example.COM''" world0]
  by (simp add: world0_def)

text \<open>
  Claim C7: whenever \<^verbatim>\<open>LookupSRV\<close> returns, the canonical name it returns is the empty
  string, on the error path and on the success path; the canonical name of the answer is
  not used.
\<close>

theorem LookupSRV_cname_empty:
  "fst (LookupSRV u service proto name w) = Inr (cname, srv, err) \<Longrightarrow> cname = []"
  by (auto simp: LookupSRV_unfold split: prod.splits option.splits sum.splits)

theorem LookupSRV_cname_empty_witness:
  "fst (LookupSRV
       (answer_all (Some \<lparr>CanonName = ''real.example.com.'',
          Rr = [RR_SRV \<lparr>Priority = 1, Weight = 30, Port = 389, Target = ''c.example.com.''\<rparr>]\<rparr>,
          None))
       ''ldap'' ''tcp'' ''example.com'' world0) =
     Inr ([], [\<lparr>Priority = 1, Weight = 30, Port = 389, Target = ''c.example.com.''\<rparr>], None) \<and>
   fst (LookupSRV (answer_all (Some \<lparr>CanonName = ''real.example.com.'', Rr = []\<rparr>,
          Some (Error ''SERVFAIL'')))
       ''ldap'' ''tcp'' ''example.com'' world0) =
     Inr ([], [], Some (Error ''SERVFAIL''))"
proof -
  have ok: "fst (LookupSRV
       (answer_all (Some \<lparr>CanonName = ''real.example.com.'',
          Rr = [RR_SRV \<lparr>Priority = 1, Weight = 30, Port = 389, Target = ''c.example.com.''\<rparr>]\<rparr>,
          None))
       ''ldap'' ''tcp'' ''example.com'' world0) =
     Inr ([], [\<lparr>Priority = 1, Weight = 30, Port = 389, Target = ''c.example.com.''\<rparr>], None)"
    by (simp add: LookupSRV_unfold answer_all_def world0_def LookupSRV_outer.simps
        LookupSRV_inner.simps)
  have failed: "fst (LookupSRV (answer_all (Some \<lparr>CanonName = ''real.example.com.'', Rr = []\<rparr>,
          Some (Error ''SERVFAIL'')))
       ''ldap'' ''tcp'' ''example.com'' world0) =
     Inr ([], [], Some (Error ''SERVFAIL''))"
    by (simp add: LookupSRV_unfold answer_all_def world0_def)
  show ?thesis
    using ok failed LookupSRV_cname_empty [OF ok] LookupSRV_cname_empty [OF failed] by simp
qed

text \<open>
  What a random choice is here: a draw depends on the random source, and uses it up.
\<close>

lemma random_draw_depends:
  "fst (random_draw 2 world0) \<noteq> fst (random_draw 2 (world0\<lparr>random := (\<lambda>n. 1)\<rparr>)) \<and>
   drawn (snd (random_draw 2 world0)) = 1"
  by (simp add: random_draw_def world0_def)

text \<open>
  Claim C10: \<^verbatim>\<open>LookupSRV\<close> is deterministic, and no random choice has a part in what it
  returns. The state of a call holds the random source of the process. Take two calls with
  the same service, proto and name, on resolvers that give the query of the call the same
  answer, in any two states, whatever their random sources deliver and however many
  numbers were drawn from them: the two calls return the same canonical name, the same
  list in the same order, and the same error; and the call draws no number.
\<close>

theorem LookupSRV_deterministic:
  "Resolve u1 (LookupSRV_name service proto name) TypeSRV ClassINET =
   Resolve u2 (LookupSRV_name service proto name) TypeSRV ClassINET \<Longrightarrow>
   fst (LookupSRV u1 service proto name w1) = fst (LookupSRV u2 service proto name w2) \<and>
   random (snd (LookupSRV u1 service proto name w1)) = random w1 \<and>
   drawn (snd (LookupSRV u1 service proto name w1)) = drawn w1"
  by (simp add: LookupSRV_unfold split: prod.splits option.splits sum.splits)

theorem LookupSRV_deterministic_witness:
  "Resolve (answer_all (Some \<lparr>CanonName = ''real.example.com.'',
          Rr = [RR_SRV \<lparr>Priority = 2, Weight = 10, Port = 389, Target = ''a.example.com.''\<rparr>,
                RR_SRV \<lparr>Priority = 2, Weight = 20, Port = 389, Target = ''b.example.com.''\<rparr>,
                RR_SRV \<lparr>Priority = 1, Weight = 30, Port = 389, Target = ''c.example.com.''\<rparr>]\<rparr>,
          None))
       (LookupSRV_name ''ldap'' ''tcp'' ''example.com'') TypeSRV ClassINET =
   Resolve (answer_by_family (None, Some (Error ''SERVFAIL''))
         (Some \<lparr>CanonName = ''real.example.com.'',
          Rr = [RR_SRV \<lparr>Priority = 2, Weight = 10, Port = 389, Target = ''a.example.com.''\<rparr>,
                RR_SRV \<lparr>Priority = 2, Weight = 20, Port = 389, Target = ''b.example.com.''\<rparr>,
                RR_SRV \<lparr>Priority = 1, Weight = 30, Port = 389, Target = ''c.example.com.''\<rparr>]\<rparr>,
          None))
       (LookupSRV_name ''ldap'' ''tcp'' ''example.com'') TypeSRV ClassINET \<and>
   fst (LookupSRV (answer_all (Some \<lparr>CanonName = ''real.example.com.'',
          Rr = [RR_SRV \<lparr>Priority = 2, Weight = 10, Port = 389, Target = ''a.example.com.''\<rparr>,
                RR_SRV \<lparr>Priority = 2, Weight = 20, Port = 389, Target = ''b.example.com.''\<rparr>,
                RR_SRV \<lparr>Priority = 1, Weight = 30, Port = 389, Target = ''c.example.com.''\<rparr>]\<rparr>,
          None))
       ''ldap'' ''tcp'' ''example.com'' world0) =
   fst (LookupSRV (answer_by_family (None, Some (Error ''SERVFAIL''))
         (Some \<lparr>CanonName = ''real.example.com.'',
          Rr = [RR_SRV \<lparr>Priority = 2, Weight = 10, Port = 389, Target = ''a.example.com.''\<rparr>,
                RR_SRV \<lparr>Priority = 2, Weight = 20, Port = 389, Target = ''b.example.com.''\<rparr>,
                RR_SRV \<lparr>Priority = 1, Weight = 30, Port = 389, Target = ''c.example.com.''\<rparr>]\<rparr>,
          None))
       ''ldap'' ''tcp'' ''example.com''
       \<lparr>queries = [(''example.com'', TypeA, ClassINET)], chans = [], random = (\<lambda>n. 7 * n + 3), drawn = 5\<rparr>) \<and>
   drawn (snd (LookupSRV (answer_all (Some \<lparr>CanonName = ''real.example.com.'',
          Rr = [RR_SRV \<lparr>Priority = 2, Weight = 10, Port = 389, Target = ''a.example.com.''\<rparr>,
                RR_SRV \<lparr>Priority = 2, Weight = 20, Port = 389, Target = ''b.example.com.''\<rparr>,
                RR_SRV \<lparr>Priority = 1, Weight = 30, Port = 389, Target = ''c.example.com.''\<rparr>]\<rparr>,
          None))
       ''ldap'' ''tcp'' ''example.com'' world0)) = 0"
proof -
  have same: "Resolve (answer_all (Some \<lparr>CanonName = ''real.example.com.'',
          Rr = [RR_SRV \<lparr>Priority = 2, Weight = 10, Port = 389, Target = ''a.example.com.''\<rparr>,
                RR_SRV \<lparr>Priority = 2, Weight = 20, Port = 389, Target = ''b.example.com.''\<rparr>,
                RR_SRV \<lparr>Priority = 1, Weight = 30, Port = 389, Target = ''c.example.com.''\<rparr>]\<rparr>,
          None))
       (LookupSRV_name ''ldap'' ''tcp'' ''example.com'') TypeSRV ClassINET =
   Resolve (answer_by_family (None, Some (Error ''SERVFAIL''))
         (Some \<lparr>CanonName = ''real.example.com.'',
          Rr = [RR_SRV \<lparr>Priority = 2, Weight = 10, Port = 389, Target = ''a.example.com.''\<rparr>,
                RR_SRV \<lparr>Priority = 2, Weight = 20, Port = 389, Target = ''b.example.com.''\<rparr>,
                RR_SRV \<lparr>Priority = 1, Weight = 30, Port = 389, Target = ''c.example.com.''\<rparr>]\<rparr>,
          None))
       (LookupSRV_name ''ldap'' ''tcp'' ''example.com'') TypeSRV ClassINET"
    by (simp add: answer_all_def answer_by_family_def)
  show ?thesis
    using same LookupSRV_deterministic [OF same, where ?w1.0 = world0
        and ?w2.0 = "\<lparr>queries = [(''example.com'', TypeA, ClassINET)], chans = [], random = (\<lambda>n. 7 * n + 3), drawn = 5\<rparr>"]
    by (simp add: world0_def)
qed

section \<open>Combined host lookup: the claims\<close>

lemma LookupIP_decode_A_map: "LookupIP_decode_A (map RR_A ips) addrs = Inr (addrs @ ips)"
  by (induction ips arbitrary: addrs) simp_all

lemma LookupIP_decode_AAAA_map: "LookupIP_decode_AAAA (map RR_AAAA ips) addrs = Inr (addrs @ ips)"
  by (induction ips arbitrary: addrs) simp_all

lemma LookupIP_decode_A_abort: "LookupIP_decode_A rrs addrs = Inl a \<Longrightarrow> a = TypeAssertionFailed"
  by (induction rrs arbitrary: addrs) (auto split: RR.splits)

lemma LookupIP_decode_AAAA_abort:
  "LookupIP_decode_AAAA rrs addrs = Inl a \<Longrightarrow> a = TypeAssertionFailed"
  by (induction rrs arbitrary: addrs) (auto split: RR.splits)

lemma LookupHost_loop_map: "LookupHost_loop String ips addrs = addrs @ map String ips"
  by (induction ips arbitrary: addrs) simp_all

text \<open>
  \<^verbatim>\<open>LookupIP\<close> by the answers of the resolver to its two queries.
\<close>

lemma LookupIP_unfold:
  "LookupIP u host w =
     (case received (Resolve u host TypeA ClassINET) of
        None \<Rightarrow> (Inl NilDereference, LookupIP_end u host w)
      | Some resa \<Rightarrow>
          (case LookupIP_decode_A (Rr resa) [] of
             Inl a \<Rightarrow> (Inl a, LookupIP_end u host w)
           | Inr addrs \<Rightarrow>
               (case received (Resolve u host TypeAAAA ClassINET) of
                  None \<Rightarrow> (Inl NilDereference, LookupIP_end u host w)
                | Some resaaaa \<Rightarrow>
                    (case LookupIP_decode_AAAA (Rr resaaaa) addrs of
                       Inl a \<Rightarrow> (Inl a, LookupIP_end u host w)
                     | Inr addrs' \<Rightarrow> (Inr (addrs', None), LookupIP_end u host w)))))"
proof -
  obtain ra ea where a: "Resolve u host TypeA ClassINET = (ra, ea)"
    by (cases "Resolve u host TypeA ClassINET")
  obtain rb eb where b: "Resolve u host TypeAAAA ClassINET = (rb, eb)"
    by (cases "Resolve u host TypeAAAA ClassINET")
  show ?thesis
    by (cases ea; cases eb)
       (simp_all add: LookupIP_def bind_def make_chan_def ResolveAsync_def call_Resolve_def
        return_def abort_with_def a b chan_recv_def lookupHelper_def settle.simps
        goroutine_step_def next_op_def done_op_def panic_op_def received_def LookupIP_end_def
        nth_append list_update_append split: option.splits sum.splits)
qed

lemma LookupIP_error_aborts:
  "snd (Resolve u host TypeA ClassINET) \<noteq> None \<or> snd (Resolve u host TypeAAAA ClassINET) \<noteq> None
   \<Longrightarrow> \<exists>a. fst (LookupIP u host w) = Inl a"
  by (auto simp: LookupIP_unfold received_def split: option.splits sum.splits)

text \<open>
  Claim C1 says that a resolver error for one family, or for both, is absorbed:
  \<^verbatim>\<open>LookupIP\<close> returns the addresses of the other family (or none) and a nil error, and
  never aborts. In the code \<^verbatim>\<open>lookupHelper\<close> closes the channel without a send on an
  error, the receive in \<^verbatim>\<open>LookupIP\<close> yields the nil pointer, and the loop header
  \<^verbatim>\<open>range ra.Rr\<close> (or \<^verbatim>\<open>range raaaa.Rr\<close>) reads a field through it: the call panics.
  The three cases: the A query fails, the AAAA query fails, both fail.
\<close>

theorem LookupIP_family_failure_panics:
  "fst (LookupIP (answer_by_family (None, Some (Error ''SERVFAIL'')) (Some \<lparr>CanonName = ''host.example.com.'', Rr = [RR_AAAA [32, 1, 13, 184, 0, 0, 0, 0, 0, 0, 0, 0, 0, 0, 0, 1]]\<rparr>, None))
       ''host.example.com'' world0) = Inl NilDereference \<and>
   fst (LookupIP (answer_by_family (Some \<lparr>CanonName = ''host.example.com.'', Rr = [RR_A [192, 0, 2, 1], RR_A [192, 0, 2, 2]]\<rparr>, None) (None, Some (Error ''SERVFAIL'')))
       ''host.example.com'' world0) = Inl NilDereference \<and>
   fst (LookupIP (answer_by_family (None, Some (Error ''SERVFAIL'')) (None, Some (Error ''SERVFAIL'')))
       ''host.example.com'' world0) = Inl NilDereference"
  by (simp add: LookupIP_unfold answer_by_family_def received_def)





















text \<open>
  The receives of the caller in \<^verbatim>\<open>LookupIP\<close> are runs of the step relation: the
  goroutines running on their own are steps of theirs, and the receive is a hand-over or a
  receive from a closed channel.
\<close>

lemma first_enabled_is_step:
  "first_enabled gs cs = Some (gs', cs') \<Longrightarrow>
   \<exists>k g'. k < length gs \<and> goroutine_step (gs ! k) cs = Some (g', cs') \<and> gs' = gs[k := g']"
proof (induction gs arbitrary: gs' cs')
  case Nil
  then show ?case by simp
next
  case (Cons g gs)
  show ?case
  proof (cases "goroutine_step g cs")
    case (Some p)
    with Cons.prems have "goroutine_step ((g # gs) ! 0) cs = Some (fst p, cs') \<and>
        gs' = (g # gs)[0 := fst p]"
      by (auto split: prod.splits)
    then show ?thesis by (intro exI [of _ 0]) auto
  next
    case None
    with Cons.prems obtain gs'' where t: "first_enabled gs cs = Some (gs'', cs')" and gs': "gs' = g # gs''"
      by (auto split: option.splits prod.splits)
    from Cons.IH [OF t] obtain k g' where "k < length gs"
      "goroutine_step (gs ! k) cs = Some (g', cs')" "gs'' = gs[k := g']"
      by blast
    with gs' show ?thesis by (intro exI [of _ "Suc k"]) auto
  qed
qed

lemma first_enabled_None:
  "first_enabled gs cs = None \<Longrightarrow> k < length gs \<Longrightarrow> goroutine_step (gs ! k) cs = None"
proof (induction gs arbitrary: k)
  case Nil
  then show ?case by simp
next
  case (Cons g gs)
  then show ?case by (cases k) (auto split: option.splits prod.splits)
qed

lemma settle_steps:
  "rtranclp step (rs, got, gs, cs) (rs, got, fst (settle gs cs), snd (settle gs cs))"
proof (induction gs cs rule: settle.induct)
  case (1 gs cs)
  show ?case
  proof (cases "first_enabled gs cs")
    case None
    then have "settle gs cs = (gs, cs)"
      by (subst settle.simps) simp
    then show ?thesis by simp
  next
    case (Some p)
    obtain gs' cs' where p: "p = (gs', cs')" by (cases p)
    have eq: "settle gs cs = settle gs' cs'"
      using Some p by (subst settle.simps) simp
    from first_enabled_is_step [of gs cs gs' cs'] Some p
    have "step (rs, got, gs, cs) (rs, got, gs', cs')"
      by (auto intro: step.internal)
    moreover have "rtranclp step (rs, got, gs', cs')
        (rs, got, fst (settle gs' cs'), snd (settle gs' cs'))"
      by (rule "1.IH" [OF Some p [symmetric]])
    ultimately show ?thesis
      unfolding eq by (rule converse_rtranclp_into_rtranclp)
  qed
qed

lemma settle_settled:
  "k < length (fst (settle gs cs)) \<Longrightarrow>
   goroutine_step (fst (settle gs cs) ! k) (snd (settle gs cs)) = None"
proof (induction gs cs rule: settle.induct)
  case (1 gs cs)
  show ?case
  proof (cases "first_enabled gs cs")
    case None
    then have "settle gs cs = (gs, cs)"
      by (subst settle.simps) simp
    with "1.prems" None show ?thesis
      by (simp add: first_enabled_None)
  next
    case (Some p)
    obtain gs' cs' where p: "p = (gs', cs')" by (cases p)
    have eq: "settle gs cs = settle gs' cs'"
      using Some p by (subst settle.simps) simp
    from "1.prems" show ?thesis
      unfolding eq by (rule "1.IH" [OF Some p [symmetric]])
  qed
qed

lemma first_sender_is_handoff:
  "first_sender c gs = Some (v, gs') \<Longrightarrow>
   \<exists>k. k < length gs \<and> next_op (gs ! k) = Some (Send c v) \<and> gs' = gs[k := done_op (gs ! k)]"
proof (induction gs arbitrary: gs')
  case Nil
  then show ?case by simp
next
  case (Cons g gs)
  show ?case
  proof (cases "next_op g = Some (Send c v) \<and> gs' = done_op g # gs")
    case True
    then show ?thesis by (intro exI [of _ 0]) auto
  next
    case False
    with Cons.prems obtain gs'' where t: "first_sender c gs = Some (v, gs'')" and gs': "gs' = g # gs''"
      by (auto split: option.splits instr.splits if_splits prod.splits)
    from Cons.IH [OF t] obtain k where "k < length gs" "next_op (gs ! k) = Some (Send c v)"
      "gs'' = gs[k := done_op (gs ! k)]"
      by blast
    with gs' show ?thesis by (intro exI [of _ "Suc k"]) auto
  qed
qed

lemma first_sender_None:
  "first_sender c gs = None \<Longrightarrow> k < length gs \<Longrightarrow> next_op (gs ! k) \<noteq> Some (Send c v)"
proof (induction gs arbitrary: k)
  case Nil
  then show ?case by simp
next
  case (Cons g gs)
  then show ?case
    by (cases k) (auto split: option.splits instr.splits if_splits prod.splits)
qed

text \<open>A receive that completes is a run of the step relation.\<close>

lemma chan_recv_is_run:
  assumes "chan_recv c gs w = (Inr (v, gs'), w')"
  shows "rtranclp step (c # rs, got, gs, chans w) (rs, got @ [v], gs', chans w')"
proof -
  obtain gs1 cs1 where s: "settle gs (chans w) = (gs1, cs1)"
    by (cases "settle gs (chans w)")
  have run: "rtranclp step (c # rs, got, gs, chans w) (c # rs, got, gs1, cs1)"
    using settle_steps [of "c # rs" got gs "chans w"] s by simp
  from assms s have w': "chans w' = cs1" and c: "c < length cs1"
    by (auto simp: chan_recv_def split: option.splits if_splits prod.splits)
  show ?thesis
  proof (cases "closed (cs1 ! c)")
    case True
    with assms s c have "v = None" "gs' = gs1"
      by (auto simp: chan_recv_def split: option.splits if_splits prod.splits)
    moreover have "step (c # rs, got, gs1, cs1) (rs, got @ [None], gs1, cs1)"
      using c True by (rule step.recv_closed)
    ultimately show ?thesis using run w' by (simp add: rtranclp.rtrancl_into_rtrancl)
  next
    case False
    with assms s c have "first_sender c gs1 = Some (v, gs')"
      by (auto simp: chan_recv_def split: option.splits if_splits prod.splits)
    from first_sender_is_handoff [OF this] obtain k where "k < length gs1"
      "next_op (gs1 ! k) = Some (Send c v)" "gs' = gs1[k := done_op (gs1 ! k)]"
      by blast
    then have "step (c # rs, got, gs1, cs1) (rs, got @ [v], gs', cs1)"
      using c False by (simp add: step.handoff)
    then show ?thesis using run w' by (simp add: rtranclp.rtrancl_into_rtrancl)
  qed
qed

text \<open>A receive that is reported as blocked forever is a run that ends where nothing can move.\<close>

lemma chan_recv_blocked_is_stuck:
  assumes "chan_recv c gs w = (Inl BlocksForever, w')" and "crashed (fst (settle gs (chans w))) = None"
  shows "rtranclp step (c # rs, got, gs, chans w) (c # rs, got, fst (settle gs (chans w)), chans w') \<and>
         (\<forall>cfg. \<not> step (c # rs, got, fst (settle gs (chans w)), chans w') cfg)"
proof -
  obtain gs1 cs1 where s: "settle gs (chans w) = (gs1, cs1)"
    by (cases "settle gs (chans w)")
  have run: "rtranclp step (c # rs, got, gs, chans w) (c # rs, got, gs1, cs1)"
    using settle_steps [of "c # rs" got gs "chans w"] s by simp
  from assms s have w': "chans w' = cs1"
    by (auto simp: chan_recv_def split: option.splits if_splits prod.splits)
  from assms s have nosend: "c < length cs1 \<Longrightarrow> \<not> closed (cs1 ! c) \<and> first_sender c gs1 = None"
    by (auto simp: chan_recv_def split: option.splits if_splits prod.splits)
  have settled: "\<And>k. k < length gs1 \<Longrightarrow> goroutine_step (gs1 ! k) cs1 = None"
    using settle_settled [of _ gs "chans w"] s by simp
  have "\<not> step (c # rs, got, gs1, cs1) cfg" for cfg
    using settled nosend first_sender_None [of c gs1]
    by (auto elim!: step.cases)
  with run w' s show ?thesis by simp
qed



text \<open>
  Claim C5: when both queries succeed (a result and a nil error each) and the results hold
  A records with the addresses \<open>v4\<close> and AAAA records with the addresses \<open>v6\<close>, in the
  order of the resolver, \<^verbatim>\<open>LookupIP\<close> returns \<open>v4\<close> followed by \<open>v6\<close> with a nil error,
  and \<^verbatim>\<open>LookupHost\<close> returns the string forms of these addresses in the same order.
\<close>

theorem LookupIP_both_families:
  "Resolve u host TypeA ClassINET = (Some ra, None) \<Longrightarrow>
   Resolve u host TypeAAAA ClassINET = (Some raaaa, None) \<Longrightarrow>
   Rr ra = map RR_A v4 \<Longrightarrow> Rr raaaa = map RR_AAAA v6 \<Longrightarrow>
   fst (LookupIP u host w) = Inr (v4 @ v6, None) \<and>
   fst (LookupHost String u host w) = Inr (map String (v4 @ v6), None)"
  by (simp add: LookupHost_def bind_def return_def LookupIP_unfold LookupIP_decode_A_map
      LookupIP_decode_AAAA_map LookupHost_loop_map received_def split: prod.splits)

theorem LookupIP_both_families_witness:
  "Resolve (answer_by_family (Some \<lparr>CanonName = ''host.example.com.'', Rr = [RR_A [192, 0, 2, 1], RR_A [192, 0, 2, 2]]\<rparr>, None) (Some \<lparr>CanonName = ''host.example.com.'', Rr = [RR_AAAA [32, 1, 13, 184, 0, 0, 0, 0, 0, 0, 0, 0, 0, 0, 0, 1]]\<rparr>, None))
       ''host.example.com'' TypeA ClassINET = (Some \<lparr>CanonName = ''host.example.com.'', Rr = [RR_A [192, 0, 2, 1], RR_A [192, 0, 2, 2]]\<rparr>, None) \<and>
   Resolve (answer_by_family (Some \<lparr>CanonName = ''host.example.com.'', Rr = [RR_A [192, 0, 2, 1], RR_A [192, 0, 2, 2]]\<rparr>, None) (Some \<lparr>CanonName = ''host.example.com.'', Rr = [RR_AAAA [32, 1, 13, 184, 0, 0, 0, 0, 0, 0, 0, 0, 0, 0, 0, 1]]\<rparr>, None))
       ''host.example.com'' TypeAAAA ClassINET = (Some \<lparr>CanonName = ''host.example.com.'', Rr = [RR_AAAA [32, 1, 13, 184, 0, 0, 0, 0, 0, 0, 0, 0, 0, 0, 0, 1]]\<rparr>, None) \<and>
   fst (LookupIP (answer_by_family (Some \<lparr>CanonName = ''host.example.com.'', Rr = [RR_A [192, 0, 2, 1], RR_A [192, 0, 2, 2]]\<rparr>, None) (Some \<lparr>CanonName = ''host.example.com.'', Rr = [RR_AAAA [32, 1, 13, 184, 0, 0, 0, 0, 0, 0, 0, 0, 0, 0, 0, 1]]\<rparr>, None))
       ''host.example.com'' world0) =
     Inr ([[192, 0, 2, 1], [192, 0, 2, 2], [32, 1, 13, 184, 0, 0, 0, 0, 0, 0, 0, 0, 0, 0, 0, 1]], None) \<and>
   fst (LookupHost String_example (answer_by_family (Some \<lparr>CanonName = ''host.example.com.'', Rr = [RR_A [192, 0, 2, 1], RR_A [192, 0, 2, 2]]\<rparr>, None) (Some \<lparr>CanonName = ''host.example.com.'', Rr = [RR_AAAA [32, 1, 13, 184, 0, 0, 0, 0, 0, 0, 0, 0, 0, 0, 0, 1]]\<rparr>, None))
       ''host.example.com'' world0) =
     Inr ([''192.0.2.1'', ''192.0.2.2'', ''2001:db8::1''], None)"
proof -
  have a: "Resolve (answer_by_family (Some \<lparr>CanonName = ''host.example.com.'', Rr = [RR_A [192, 0, 2, 1], RR_A [192, 0, 2, 2]]\<rparr>, None) (Some \<lparr>CanonName = ''host.example.com.'', Rr = [RR_AAAA [32, 1, 13, 184, 0, 0, 0, 0, 0, 0, 0, 0, 0, 0, 0, 1]]\<rparr>, None))
       ''host.example.com'' TypeA ClassINET = (Some \<lparr>CanonName = ''host.example.com.'', Rr = [RR_A [192, 0, 2, 1], RR_A [192, 0, 2, 2]]\<rparr>, None)"
    by (simp add: answer_by_family_def)
  have aaaa: "Resolve (answer_by_family (Some \<lparr>CanonName = ''host.example.com.'', Rr = [RR_A [192, 0, 2, 1], RR_A [192, 0, 2, 2]]\<rparr>, None) (Some \<lparr>CanonName = ''host.example.com.'', Rr = [RR_AAAA [32, 1, 13, 184, 0, 0, 0, 0, 0, 0, 0, 0, 0, 0, 0, 1]]\<rparr>, None))
       ''host.example.com'' TypeAAAA ClassINET = (Some \<lparr>CanonName = ''host.example.com.'', Rr = [RR_AAAA [32, 1, 13, 184, 0, 0, 0, 0, 0, 0, 0, 0, 0, 0, 0, 1]]\<rparr>, None)"
    by (simp add: answer_by_family_def)
  have ra: "Rr \<lparr>CanonName = ''host.example.com.'', Rr = [RR_A [192, 0, 2, 1], RR_A [192, 0, 2, 2]]\<rparr> = map RR_A [[192, 0, 2, 1], [192, 0, 2, 2]]"
    by simp
  have raaaa: "Rr \<lparr>CanonName = ''host.example.com.'', Rr = [RR_AAAA [32, 1, 13, 184, 0, 0, 0, 0, 0, 0, 0, 0, 0, 0, 0, 1]]\<rparr> = map RR_AAAA [[32, 1, 13, 184, 0, 0, 0, 0, 0, 0, 0, 0, 0, 0, 0, 1]]"
    by simp
  show ?thesis
    using a aaaa
      LookupIP_both_families [OF a aaaa ra raaaa, where w = world0
        and String = String_example]
    by (simp add: String_example_def)
qed

section \<open>Single-query lookups: the claims\<close>

lemma LookupAddr_decode_map: "LookupAddr_decode (map RR_PTR ptrs) name = Inr (name @ ptrs)"
  by (induction ptrs arbitrary: name) simp_all

text \<open>
  Claim C8, as the specification states it: for a valid address, \<^verbatim>\<open>LookupAddr\<close> never
  returns an empty name list together with a nil error. It does when the resolver answers
  without an error and without a record: the loop over \<^verbatim>\<open>r.Rr\<close> appends nothing and the
  function returns \<^verbatim>\<open>nil, nil\<close>.
\<close>

theorem LookupAddr_empty_answer:
  "fst (LookupAddr (reverse_fixed ''1.2.0.192.in-addr.arpa.'' None)
       (answer_all (Some \<lparr>CanonName = ''1.2.0.192.in-addr.arpa.'', Rr = []\<rparr>, None))
       ''192.0.2.1'' world0) = Inr ([], None)"
  by (simp add: LookupAddr_def reverse_fixed_def answer_all_def bind_def call_Resolve_def
      return_def)

text \<open>
  Claim C8, amended: for a valid address (the conversion to the reverse name succeeds),
  \<^verbatim>\<open>LookupAddr\<close> returns the error of the resolver with no names when the resolver
  fails, and, when the resolver answers with PTR records and no error, exactly the names of
  these records in the order of the answer, with a nil error. So the name list is
  non-empty exactly when the answer holds a record; an answer without records gives an
  empty list and a nil error.
\<close>

theorem LookupAddr_names_or_error:
  "ReverseAddr addr = (reverse, None) \<Longrightarrow>
   (snd (Resolve u reverse TypePTR ClassINET) = Some e \<longrightarrow>
      fst (LookupAddr ReverseAddr u addr w) = Inr ([], Some e)) \<and>
   (Resolve u reverse TypePTR ClassINET = (Some res, None) \<and> Rr res = map RR_PTR ptrs \<longrightarrow>
      fst (LookupAddr ReverseAddr u addr w) = Inr (ptrs, None) \<and>
      (ptrs \<noteq> [] \<longleftrightarrow> Rr res \<noteq> []))"
  by (auto simp: LookupAddr_def bind_def call_Resolve_def return_def LookupAddr_decode_map
      split: prod.splits)

theorem LookupAddr_names_or_error_witness:
  "reverse_fixed ''1.2.0.192.in-addr.arpa.'' None ''192.0.2.1'' =
     (''1.2.0.192.in-addr.arpa.'', None) \<and>
   fst (LookupAddr (reverse_fixed ''1.2.0.192.in-addr.arpa.'' None)
       (answer_all (Some \<lparr>CanonName = [], Rr = [RR_PTR ''a.example.com.'', RR_PTR ''b.example.com.'']\<rparr>,
          None))
       ''192.0.2.1'' world0) = Inr ([''a.example.com.'', ''b.example.com.''], None) \<and>
   fst (LookupAddr (reverse_fixed ''1.2.0.192.in-addr.arpa.'' None)
       (answer_all (None, Some (Error ''SERVFAIL'')))
       ''192.0.2.1'' world0) = Inr ([], Some (Error ''SERVFAIL''))"
proof -
  have rev: "reverse_fixed ''1.2.0.192.in-addr.arpa.'' None ''192.0.2.1'' =
     (''1.2.0.192.in-addr.arpa.'', None)"
    by (simp add: reverse_fixed_def)
  show ?thesis
    using rev
      LookupAddr_names_or_error
        [where ReverseAddr = "reverse_fixed ''1.2.0.192.in-addr.arpa.'' None"
          and addr = "''192.0.2.1''" and reverse = "''1.2.0.192.in-addr.arpa.''"
          and u = "answer_all (Some \<lparr>CanonName = [],
            Rr = [RR_PTR ''a.example.com.'', RR_PTR ''b.example.com.'']\<rparr>, None)"
          and res = "\<lparr>CanonName = [], Rr = [RR_PTR ''a.example.com.'', RR_PTR ''b.example.com.'']\<rparr>"
          and ptrs = "[''a.example.com.'', ''b.example.com.'']" and w = world0, OF rev]
      LookupAddr_names_or_error
        [where ReverseAddr = "reverse_fixed ''1.2.0.192.in-addr.arpa.'' None"
          and addr = "''192.0.2.1''" and reverse = "''1.2.0.192.in-addr.arpa.''"
          and u = "answer_all (None, Some (Error ''SERVFAIL''))"
          and e = "Error ''SERVFAIL''" and w = world0, OF rev]
    by (simp add: answer_all_def)
qed

text \<open>
  Claim C9: the single-query lookups fail fast. When the conversion of the address fails,
  \<^verbatim>\<open>LookupAddr\<close> returns no names and the error, and the state is unchanged: no query
  was issued. When the resolver returns an error, \<^verbatim>\<open>LookupAddr\<close>, \<^verbatim>\<open>LookupMX\<close> and
  \<^verbatim>\<open>LookupTXT\<close> each return an empty list and that error, whatever result came with
  the error.
\<close>

theorem single_query_fail_fast:
  "(snd (ReverseAddr addr) = Some e \<longrightarrow>
      LookupAddr ReverseAddr u addr w = (Inr ([], Some e), w)) \<and>
   (ReverseAddr addr = (reverse, None) \<and> snd (Resolve u reverse TypePTR ClassINET) = Some e \<longrightarrow>
      fst (LookupAddr ReverseAddr u addr w) = Inr ([], Some e)) \<and>
   (snd (Resolve u name TypeMX ClassINET) = Some e \<longrightarrow>
      fst (LookupMX u name w) = Inr ([], Some e)) \<and>
   (snd (Resolve u name TypeTXT ClassINET) = Some e \<longrightarrow>
      fst (LookupTXT u name w) = Inr ([], Some e))"
  by (auto simp: LookupAddr_def LookupMX_def LookupTXT_def bind_def call_Resolve_def return_def
      split: prod.splits)

theorem single_query_fail_fast_witness:
  "LookupAddr (reverse_fixed [] (Some (Error ''unrecognized address'')))
       (answer_all (Some \<lparr>CanonName = [], Rr = [RR_PTR ''a.example.com.'']\<rparr>, None))
       ''not-an-address'' world0 =
     (Inr ([], Some (Error ''unrecognized address'')), world0) \<and>
   fst (LookupAddr (reverse_fixed ''1.2.0.192.in-addr.arpa.'' None)
       (answer_all (Some \<lparr>CanonName = [], Rr = [RR_PTR ''a.example.com.'']\<rparr>,
          Some (Error ''SERVFAIL'')))
       ''192.0.2.1'' world0) = Inr ([], Some (Error ''SERVFAIL'')) \<and>
   fst (LookupMX
       (answer_all (Some \<lparr>CanonName = [], Rr = [RR_MX \<lparr>Pref = 10, Mx = ''mail.example.com.''\<rparr>]\<rparr>,
          Some (Error ''SERVFAIL'')))
       ''example.com'' world0) = Inr ([], Some (Error ''SERVFAIL'')) \<and>
   fst (LookupTXT
       (answer_all (Some \<lparr>CanonName = [], Rr = [RR_TXT [''a'', ''b''], RR_TXT [''c'']]\<rparr>,
          Some (Error ''SERVFAIL'')))
       ''example.com'' world0) = Inr ([], Some (Error ''SERVFAIL''))"
  using single_query_fail_fast
      [where ReverseAddr = "reverse_fixed [] (Some (Error ''unrecognized address''))"
         and addr = "''not-an-address''" and e = "Error ''unrecognized address''"
         and u = "answer_all (Some \<lparr>CanonName = [], Rr = [RR_PTR ''a.example.com.'']\<rparr>, None)"
         and w = world0]
    single_query_fail_fast
      [where ReverseAddr = "reverse_fixed ''1.2.0.192.in-addr.arpa.'' None"
         and addr = "''192.0.2.1''" and reverse = "''1.2.0.192.in-addr.arpa.''"
         and e = "Error ''SERVFAIL''"
         and u = "answer_all (Some \<lparr>CanonName = [], Rr = [RR_PTR ''a.example.com.'']\<rparr>,
            Some (Error ''SERVFAIL''))"
         and w = world0]
    single_query_fail_fast
      [where e = "Error ''SERVFAIL''" and name = "''example.com''"
         and u = "answer_all (Some \<lparr>CanonName = [],
            Rr = [RR_MX \<lparr>Pref = 10, Mx = ''mail.example.com.''\<rparr>]\<rparr>, Some (Error ''SERVFAIL''))"
         and w = world0]
    single_query_fail_fast
      [where e = "Error ''SERVFAIL''" and name = "''example.com''"
         and u = "answer_all (Some \<lparr>CanonName = [], Rr = [RR_TXT [''a'', ''b''], RR_TXT [''c'']]\<rparr>,
            Some (Error ''SERVFAIL''))"
         and w = world0]
  by (simp add: reverse_fixed_def answer_all_def)

end
